theory Spec2Isabelle
  imports Main
begin

section \<open>Python values used by the tools\<close>

text \<open>
  A Python \<^verbatim>\<open>str\<close> is a sequence of Unicode code points, so it is modelled as a list of
  natural numbers. \<open>py\<close> turns an Isabelle string literal (ASCII) into such a list.
\<close>

type_synonym pystr = "nat list"

definition py :: "string \<Rightarrow> pystr" where
  "py s = map of_char s"

text \<open>
  Exceptions raised by the library calls the tools make (\<^verbatim>\<open>ast.parse\<close>,
  \<^verbatim>\<open>subprocess.run\<close>, \<^verbatim>\<open>Path.exists\<close>). An exception has a class
  and the text \<^verbatim>\<open>str(e)\<close>. Every handler of the tools is
  \<^verbatim>\<open>except Exception as e\<close>, which catches instances of \<^verbatim>\<open>Exception\<close> and
  lets the other \<^verbatim>\<open>BaseException\<close> classes through.
\<close>

datatype exc_class =
    SyntaxError | ValueError | RecursionError | MemoryError
  | FileNotFoundError | PermissionError | OSError
  | KeyboardInterrupt | SystemExit

datatype exn = Exn (exc_class: exc_class) (exc_str: pystr)

fun is_Exception :: "exc_class \<Rightarrow> bool" where
  "is_Exception KeyboardInterrupt = False"
| "is_Exception SystemExit = False"
| "is_Exception _ = True"

text \<open>
  Every tool returns a dictionary of one of two shapes:
  \<^verbatim>\<open>{"error": str(e), "success": False}\<close> or \<^verbatim>\<open>{..., "success": True}\<close>.
\<close>

datatype 'a tool_result = Failure (error: pystr) | Success 'a

fun success :: "'a tool_result \<Rightarrow> bool" where
  "success (Failure _) = False"
| "success (Success _) = True"

text \<open>
  \<^verbatim>\<open>try: ... return {...} except Exception as e: return {"error": str(e), "success": False}\<close>:
  the body either raises (\<open>Inl\<close>) or computes the payload (\<open>Inr\<close>); an exception that is
  not an \<^verbatim>\<open>Exception\<close> leaves the tool uncaught.
\<close>

fun try_except :: "exn + 'a \<Rightarrow> exn + 'a tool_result" where
  "try_except (Inr v) = Inr (Success v)"
| "try_except (Inl e) =
     (if is_Exception (exc_class e) then Inr (Failure (exc_str e)) else Inl e)"

section \<open>The syntax tree of the \<^verbatim>\<open>ast\<close> module\<close>

text \<open>
  The node classes the tools test for with \<^verbatim>\<open>isinstance\<close> or read fields of have
  a constructor of their own, with the fields in the order of \<^verbatim>\<open>_fields\<close>;
  \<open>Other\<close> stands for a node of any other class (statement, expression,
  \<^verbatim>\<open>keyword\<close>, \<^verbatim>\<open>withitem\<close>, ...): it holds a label and the child nodes in field
  order. The label is the name of the class together with what the node holds besides these
  children: the values of its fields that are not nodes, and its operator nodes. The
  childless \<^verbatim>\<open>expr_context\<close> and operator nodes are not nodes of the tree: no test of
  the tools matches them. Two nodes of Python that differ in what \<^verbatim>\<open>ast.unparse\<close> reads
  are different trees here; the type comments are absent, since the tools call
  \<^verbatim>\<open>ast.parse\<close> without asking for them.

  A constant holds its value and its \<^verbatim>\<open>kind\<close>. \<open>ConstOther\<close> is a constant of another
  type (\<^verbatim>\<open>float\<close>, \<^verbatim>\<open>complex\<close>, \<^verbatim>\<open>bytes\<close>, \<^verbatim>\<open>Ellipsis\<close>), given by its
  \<^verbatim>\<open>repr\<close>.
\<close>

datatype constant_value =
  ConstStr pystr | ConstInt int | ConstBool bool | ConstNone | ConstOther pystr

datatype ast =
    Module "ast list"
  | FunctionDef pystr arguments "ast list" "ast list" "ast option"
  | AsyncFunctionDef pystr arguments "ast list" "ast list" "ast option"
  | ClassDef pystr "ast list" "ast list" "ast list" "ast list"
  | Assign "ast list" ast
  | Import "ast list"
  | ImportFrom "pystr option" "ast list" nat
  | Alias pystr "pystr option"
  | Try "ast list" "ast list" "ast list" "ast list"
  | ExceptHandler "ast option" "pystr option" "ast list"
  | Call ast "ast list" "ast list"
  | Name pystr
  | Attribute ast pystr
  | Constant constant_value "pystr option"
  | Lambda arguments ast
  | Other pystr "ast list"
and arguments =
    Arguments (posonlyargs: "arg list") (args: "arg list") (vararg: "arg option")
      (kwonlyargs: "arg list") (kw_defaults: "ast option list") (kwarg: "arg option")
      (defaults: "ast list")
and arg =
    Arg (arg: pystr) (annotation: "ast option")

text \<open>
  \<^verbatim>\<open>ast.walk\<close> yields objects of all three classes, so the traversal runs over their sum.
\<close>

datatype node = AstNode ast | ArgumentsNode arguments | ArgNode arg

text \<open>An optional field contributes its node when it is not \<^verbatim>\<open>None\<close>.\<close>

fun opt :: "'a option \<Rightarrow> 'a list" where
  "opt None = []"
| "opt (Some x) = [x]"

text \<open>
  \<^verbatim>\<open>ast.iter_child_nodes(node)\<close>: for each field in \<^verbatim>\<open>node._fields\<close> order, the field's
  value when it is a node, or its items that are nodes when it is a list.
\<close>

fun iter_child_nodes :: "node \<Rightarrow> node list" where
  "iter_child_nodes (AstNode (Module body)) = map AstNode body"
| "iter_child_nodes (AstNode (FunctionDef name as body decorator_list returns)) =
     ArgumentsNode as # map AstNode (body @ decorator_list @ opt returns)"
| "iter_child_nodes (AstNode (AsyncFunctionDef name as body decorator_list returns)) =
     ArgumentsNode as # map AstNode (body @ decorator_list @ opt returns)"
| "iter_child_nodes (AstNode (ClassDef name bases kwds body decorator_list)) =
     map AstNode (bases @ kwds @ body @ decorator_list)"
| "iter_child_nodes (AstNode (Assign targets v)) = map AstNode (targets @ [v])"
| "iter_child_nodes (AstNode (Import names)) = map AstNode names"
| "iter_child_nodes (AstNode (ImportFrom modname names level)) = map AstNode names"
| "iter_child_nodes (AstNode (Alias name asname)) = []"
| "iter_child_nodes (AstNode (Try body handlers orelse finalbody)) =
     map AstNode (body @ handlers @ orelse @ finalbody)"
| "iter_child_nodes (AstNode (ExceptHandler typ name body)) = map AstNode (opt typ @ body)"
| "iter_child_nodes (AstNode (Call func as kwds)) = map AstNode (func # as @ kwds)"
| "iter_child_nodes (AstNode (Name ident)) = []"
| "iter_child_nodes (AstNode (Attribute v attr)) = [AstNode v]"
| "iter_child_nodes (AstNode (Constant c kind)) = []"
| "iter_child_nodes (AstNode (Lambda as body)) = [ArgumentsNode as, AstNode body]"
| "iter_child_nodes (AstNode (Other label children)) = map AstNode children"
| "iter_child_nodes (ArgumentsNode (Arguments po ar va ko kd kw de)) =
     map ArgNode (po @ ar @ opt va @ ko) @ map AstNode (concat (map opt kd))
       @ map ArgNode (opt kw) @ map AstNode de"
| "iter_child_nodes (ArgNode (Arg name ann)) = map AstNode (opt ann)"

fun node_size :: "node \<Rightarrow> nat" where
  "node_size (AstNode a) = size a"
| "node_size (ArgumentsNode a) = size a"
| "node_size (ArgNode a) = size a"

definition queue_size :: "node list \<Rightarrow> nat" where
  "queue_size todo = sum_list (map (\<lambda>n. Suc (2 * node_size n)) todo)"

text \<open>
  \<^verbatim>\<open>ast.walk(node)\<close>: breadth first, from a queue that starts as \<^verbatim>\<open>[node]\<close>;
  each round pops the leftmost node, appends its children on the right and yields it.
\<close>

function walk_queue :: "node list \<Rightarrow> node list" where
  "walk_queue [] = []"
| "walk_queue (n # todo) = n # walk_queue (todo @ iter_child_nodes n)"
  by pat_completeness auto

lemma sum_list_size_le:
  "sum_list (map (\<lambda>x. Suc (2 * f x)) xs) \<le> 2 * size_list f xs"
  by (induction xs) auto

lemma queue_size_append: "queue_size (xs @ ys) = queue_size xs + queue_size ys"
  by (simp add: queue_size_def)

lemma queue_size_AstNode: "queue_size (map AstNode xs) \<le> 2 * size_list size xs"
  using sum_list_size_le [of size xs] by (simp add: queue_size_def comp_def)

lemma queue_size_ArgNode: "queue_size (map ArgNode xs) \<le> 2 * size_list size xs"
  using sum_list_size_le [of size xs] by (simp add: queue_size_def comp_def)

lemma queue_size_opt: "queue_size (map AstNode (opt x)) \<le> 2 * size_option size x"
  by (cases x) (simp_all add: queue_size_def)

lemma queue_size_opt_arg: "queue_size (map ArgNode (opt x)) \<le> 2 * size_option size x"
  by (cases x) (simp_all add: queue_size_def)

lemma queue_size_kw_defaults:
  "queue_size (map AstNode (concat (map opt kd))) \<le> 2 * size_list (size_option size) kd"
proof (induction kd)
  case Nil
  then show ?case by (simp add: queue_size_def)
next
  case (Cons k kd)
  then show ?case
    using queue_size_opt [of k] by (simp add: queue_size_append)
qed

lemma queue_size_children: "queue_size (iter_child_nodes n) \<le> 2 * node_size n"
proof (cases n)
  case (AstNode a)
  show ?thesis
  proof (cases a)
    case (Module body)
    with AstNode show ?thesis using queue_size_AstNode [of body] by simp
  next
    case (FunctionDef name as body decs returns)
    with AstNode show ?thesis
      using queue_size_AstNode [of body] queue_size_AstNode [of decs] queue_size_opt [of returns]
      by (simp add: queue_size_append) (simp add: queue_size_def)
  next
    case (AsyncFunctionDef name as body decs returns)
    with AstNode show ?thesis
      using queue_size_AstNode [of body] queue_size_AstNode [of decs] queue_size_opt [of returns]
      by (simp add: queue_size_append) (simp add: queue_size_def)
  next
    case (ClassDef name bases kwds body decs)
    with AstNode show ?thesis
      using queue_size_AstNode [of bases] queue_size_AstNode [of kwds]
        queue_size_AstNode [of body] queue_size_AstNode [of decs]
      by (simp add: queue_size_append)
  next
    case (Assign targets v)
    with AstNode show ?thesis
      using queue_size_AstNode [of targets]
      by (simp add: queue_size_append) (simp add: queue_size_def)
  next
    case (Import names)
    with AstNode show ?thesis using queue_size_AstNode [of names] by simp
  next
    case (ImportFrom modname names level)
    with AstNode show ?thesis using queue_size_AstNode [of names] by simp
  next
    case (Alias name asname)
    with AstNode show ?thesis by (simp add: queue_size_def)
  next
    case (Try body handlers els finalbody)
    with AstNode show ?thesis
      using queue_size_AstNode [of body] queue_size_AstNode [of handlers]
        queue_size_AstNode [of els] queue_size_AstNode [of finalbody]
      by (simp add: queue_size_append)
  next
    case (ExceptHandler ety name body)
    with AstNode show ?thesis
      using queue_size_opt [of ety] queue_size_AstNode [of body]
      by (simp add: queue_size_append)
  next
    case (Call func as kwds)
    with AstNode show ?thesis
      using queue_size_AstNode [of as] queue_size_AstNode [of kwds]
      by (simp add: queue_size_append) (simp add: queue_size_def)
  next
    case (Name ident)
    with AstNode show ?thesis by (simp add: queue_size_def)
  next
    case (Attribute v attr)
    with AstNode show ?thesis by (simp add: queue_size_def)
  next
    case (Constant c kind)
    with AstNode show ?thesis by (simp add: queue_size_def)
  next
    case (Lambda as body)
    with AstNode show ?thesis by (simp add: queue_size_def)
  next
    case (Other label children)
    with AstNode show ?thesis using queue_size_AstNode [of children] by simp
  qed
next
  case (ArgumentsNode a)
  show ?thesis
  proof (cases a)
    case (Arguments po ar va ko kd kw de)
    with ArgumentsNode show ?thesis
      using queue_size_ArgNode [of po] queue_size_ArgNode [of ar] queue_size_opt_arg [of va]
        queue_size_ArgNode [of ko] queue_size_kw_defaults [of kd] queue_size_opt_arg [of kw]
        queue_size_AstNode [of de]
      by (simp add: queue_size_append)
  qed
next
  case (ArgNode a)
  show ?thesis
  proof (cases a)
    case (Arg name ann)
    with ArgNode show ?thesis using queue_size_opt [of ann] by simp
  qed
qed

termination walk_queue
proof (relation "measure queue_size")
  show "wf (measure queue_size)" by simp
next
  fix n todo
  show "(todo @ iter_child_nodes n, n # todo) \<in> measure queue_size"
    using queue_size_children [of n] by (simp add: queue_size_append) (simp add: queue_size_def)
qed

definition walk :: "ast \<Rightarrow> node list" where
  "walk tree = walk_queue [AstNode tree]"

section \<open>String operations of the tools\<close>

text \<open>\<^verbatim>\<open>s.startswith(p)\<close> and \<^verbatim>\<open>sub in s\<close> on strings.\<close>

fun startswith :: "pystr \<Rightarrow> pystr \<Rightarrow> bool" where
  "startswith s [] = True"
| "startswith [] (c # p) = False"
| "startswith (d # s) (c # p) = (d = c \<and> startswith s p)"

fun contains :: "pystr \<Rightarrow> pystr \<Rightarrow> bool" where
  "contains sub [] = (sub = [])"
| "contains sub (c # s) = (startswith (c # s) sub \<or> contains sub s)"

text \<open>
  The white space of \<^verbatim>\<open>str.isspace\<close>, \<^verbatim>\<open>str.rstrip()\<close> and the pattern
  \<^verbatim>\<open>\s\<close> of a \<^verbatim>\<open>str\<close> pattern, and the line boundaries of \<^verbatim>\<open>str.splitlines\<close>.
\<close>

definition is_space :: "nat \<Rightarrow> bool" where
  "is_space c = (c \<in> {9, 10, 11, 12, 13, 28, 29, 30, 31, 32, 133, 160, 5760, 8232, 8233,
     8239, 8287, 12288} \<or> (8192 \<le> c \<and> c \<le> 8202))"

definition is_linebreak :: "nat \<Rightarrow> bool" where
  "is_linebreak c = (c \<in> {10, 11, 12, 13, 28, 29, 30, 133, 8232, 8233})"

fun splitlines_from :: "pystr \<Rightarrow> pystr \<Rightarrow> pystr list" where
  "splitlines_from line [] = (if line = [] then [] else [line])"
| "splitlines_from line [c] = (if is_linebreak c then [line] else [line @ [c]])"
| "splitlines_from line (c # d # s) =
     (if c = 13 \<and> d = 10 then line # splitlines_from [] s
      else if is_linebreak c then line # splitlines_from [] (d # s)
      else splitlines_from (line @ [c]) (d # s))"

definition splitlines :: "pystr \<Rightarrow> pystr list" where
  "splitlines s = splitlines_from [] s"

definition rstrip :: "pystr \<Rightarrow> pystr" where
  "rstrip s = rev (dropWhile is_space (rev s))"

definition endswith :: "pystr \<Rightarrow> pystr \<Rightarrow> bool" where
  "endswith s suffix = startswith (rev s) (rev suffix)"

subsection \<open>Regular expressions\<close>

text \<open>
  The patterns of the tools are built from single characters and character classes
  (\<open>Chars\<close>: a literal, \<^verbatim>\<open>[...]\<close>, \<^verbatim>\<open>\s\<close>, \<^verbatim>\<open>.\<close>), their repetitions
  \<^verbatim>\<open>*\<close> and \<^verbatim>\<open>+\<close>, sequence, alternative, and \<^verbatim>\<open>^\<close> under
  \<^verbatim>\<open>re.MULTILINE\<close> (\<open>Bol\<close>: the start of the text or the position after a newline).
\<close>

datatype regex =
    Chars "nat \<Rightarrow> bool"
  | Star "nat \<Rightarrow> bool"
  | Plus "nat \<Rightarrow> bool"
  | Bol
  | Seq regex regex
  | Alt regex regex

text \<open>
  A matcher state is the rest of the text together with whether the position is at the
  beginning of a line. \<open>repeat p st\<close> lists the states after zero or more characters of
  class \<open>p\<close>, longest first (the repetitions are greedy); \<open>rmatch r st\<close> lists the states
  in which a match of \<open>r\<close> that starts at \<open>st\<close> can end, in the order the backtracking
  matcher tries them.
\<close>

type_synonym mstate = "bool \<times> pystr"

fun repeat :: "(nat \<Rightarrow> bool) \<Rightarrow> mstate \<Rightarrow> mstate list" where
  "repeat p (b, []) = [(b, [])]"
| "repeat p (b, c # s) = (if p c then repeat p (c = 10, s) @ [(b, c # s)] else [(b, c # s)])"

fun rmatch :: "regex \<Rightarrow> mstate \<Rightarrow> mstate list" where
  "rmatch (Chars p) (b, []) = []"
| "rmatch (Chars p) (b, c # s) = (if p c then [(c = 10, s)] else [])"
| "rmatch (Star p) st = repeat p st"
| "rmatch (Plus p) (b, []) = []"
| "rmatch (Plus p) (b, c # s) = (if p c then repeat p (c = 10, s) else [])"
| "rmatch Bol (b, s) = (if b then [(b, s)] else [])"
| "rmatch (Seq r1 r2) st = concat (map (rmatch r2) (rmatch r1 st))"
| "rmatch (Alt r1 r2) st = rmatch r1 st @ rmatch r2 st"

text \<open>\<^verbatim>\<open>bool(re.search(r, s))\<close>: a match that starts at some position of the text.\<close>

fun search_from :: "regex \<Rightarrow> mstate \<Rightarrow> bool" where
  "search_from r (b, []) = (rmatch r (b, []) \<noteq> [])"
| "search_from r (b, c # s) = (rmatch r (b, c # s) \<noteq> [] \<or> search_from r (c = 10, s))"

definition re_search :: "regex \<Rightarrow> pystr \<Rightarrow> bool" where
  "re_search r s = search_from r (True, s)"

definition lit :: "string \<Rightarrow> regex" where
  "lit s = foldr (\<lambda>c r. Seq (Chars (\<lambda>x. x = of_char c)) r) (butlast s)
     (Chars (\<lambda>x. x = of_char (last s)))"

definition dot :: "nat \<Rightarrow> bool" where
  "dot c = (c \<noteq> 10)"

definition upper_or_underscore :: "nat \<Rightarrow> bool" where
  "upper_or_underscore c = ((65 \<le> c \<and> c \<le> 90) \<or> c = 95)"

definition ascii_letter :: "nat \<Rightarrow> bool" where
  "ascii_letter c = ((65 \<le> c \<and> c \<le> 90) \<or> (97 \<le> c \<and> c \<le> 122))"

definition bracket_comma_space :: "nat \<Rightarrow> bool" where
  "bracket_comma_space c = (c = 91 \<or> c = 93 \<or> c = 44 \<or> is_space c)"

text \<open>\<^verbatim>\<open>r":\s*[A-Za-z]+[\[\],\s]*"\<close>\<close>

definition type_hint_pattern :: regex where
  "type_hint_pattern =
     Seq (lit '':'') (Seq (Star is_space) (Seq (Plus ascii_letter) (Star bracket_comma_space)))"

text \<open>\<^verbatim>\<open>r"^[A-Z_]+\s*="\<close> with \<^verbatim>\<open>re.MULTILINE\<close>\<close>

definition global_variable_pattern :: regex where
  "global_variable_pattern =
     Seq Bol (Seq (Plus upper_or_underscore) (Seq (Star is_space) (lit ''='')))"

text \<open>\<^verbatim>\<open>r"def.*\((.*=\[\].*|.*={}.*)\)"\<close>\<close>

definition mutable_default_pattern :: regex where
  "mutable_default_pattern =
     Seq (lit ''def'') (Seq (Star dot) (Seq (lit ''('')
       (Seq (Alt (Seq (Star dot) (Seq (lit ''=[]'') (Star dot)))
                 (Seq (Star dot) (Seq (lit ''={}'') (Star dot))))
            (lit '')''))))"

section \<open>\<^verbatim>\<open>CodeAnalysisTool._run\<close>\<close>

text \<open>
  The two library functions the tool calls are parameters: \<open>parse\<close> is
  \<^verbatim>\<open>ast.parse\<close>, which returns the tree or raises, and \<open>unparse\<close> is
  \<^verbatim>\<open>ast.unparse\<close>, which returns the text of a node or raises (a \<^verbatim>\<open>ValueError\<close> for an
  integer constant with more digits than the conversion limit, a \<^verbatim>\<open>RecursionError\<close> for
  an expression nested too deeply).

  A \<^verbatim>\<open>for\<close> loop whose body can raise is \<open>for_each\<close>: the body takes an item and
  the value of the variables the loop updates, and the first exception ends the loop.
\<close>

fun for_each :: "('a \<Rightarrow> 's \<Rightarrow> exn + 's) \<Rightarrow> 'a list \<Rightarrow> 's \<Rightarrow> exn + 's" where
  "for_each body [] s = Inr s"
| "for_each body (x # xs) s =
     (case body x s of Inl e \<Rightarrow> Inl e | Inr s' \<Rightarrow> for_each body xs s')"

fun import_step :: "(ast \<Rightarrow> exn + pystr) \<Rightarrow> node \<Rightarrow> pystr list \<Rightarrow> exn + pystr list" where
  "import_step unparse (AstNode (Import names)) imports =
     (case unparse (Import names) of
        Inl e \<Rightarrow> Inl e
      | Inr text \<Rightarrow> Inr (imports @ [text]))"
| "import_step unparse (AstNode (ImportFrom modname names level)) imports =
     (case unparse (ImportFrom modname names level) of
        Inl e \<Rightarrow> Inl e
      | Inr text \<Rightarrow> Inr (imports @ [text]))"
| "import_step unparse _ imports = Inr imports"

fun call_step ::
  "(ast \<Rightarrow> exn + pystr) \<Rightarrow> node \<Rightarrow> pystr list \<times> pystr list
     \<Rightarrow> exn + pystr list \<times> pystr list" where
  "call_step unparse (AstNode (Call (Name ident) as kwds)) (function_calls, attributes) =
     Inr (function_calls @ [ident], attributes)"
| "call_step unparse (AstNode (Call (Attribute v attr) as kwds)) (function_calls, attributes) =
     (case unparse v of
        Inl e \<Rightarrow> Inl e
      | Inr text \<Rightarrow> Inr (function_calls, attributes @ [text @ py ''.'' @ attr]))"
| "call_step unparse _ acc = Inr acc"

text \<open>\<^verbatim>\<open>[n.name for n in ast.walk(node) if isinstance(n, ast.FunctionDef)]\<close>\<close>

fun is_FunctionDef :: "node \<Rightarrow> bool" where
  "is_FunctionDef (AstNode (FunctionDef name as body decorator_list returns)) = True"
| "is_FunctionDef _ = False"

fun FunctionDef_name :: "node \<Rightarrow> pystr" where
  "FunctionDef_name (AstNode (FunctionDef name as body decorator_list returns)) = name"
| "FunctionDef_name _ = []"

definition method_names :: "ast \<Rightarrow> pystr list" where
  "method_names node = map FunctionDef_name (filter is_FunctionDef (walk node))"

fun class_step :: "node \<Rightarrow> (pystr \<times> pystr list) list \<Rightarrow> (pystr \<times> pystr list) list" where
  "class_step (AstNode (ClassDef name bases kwds body decorator_list)) classes =
     classes @ [(name, method_names (ClassDef name bases kwds body decorator_list))]"
| "class_step _ classes = classes"

text \<open>
  The inner loop over \<^verbatim>\<open>node.targets\<close>: \<^verbatim>\<open>ast.unparse(node.value)\<close> is called for
  each target that is a name, and for no other target.
\<close>

fun target_step ::
  "(ast \<Rightarrow> exn + pystr) \<Rightarrow> ast \<Rightarrow> ast \<Rightarrow> (pystr \<times> pystr) list
     \<Rightarrow> exn + (pystr \<times> pystr) list" where
  "target_step unparse v (Name ident) variables =
     (case unparse v of
        Inl e \<Rightarrow> Inl e
      | Inr text \<Rightarrow> Inr (variables @ [(ident, text)]))"
| "target_step unparse v _ variables = Inr variables"

fun assign_step ::
  "(ast \<Rightarrow> exn + pystr) \<Rightarrow> node \<Rightarrow> (pystr \<times> pystr) list
     \<Rightarrow> exn + (pystr \<times> pystr) list" where
  "assign_step unparse (AstNode (Assign targets v)) variables =
     for_each (target_step unparse v) targets variables"
| "assign_step unparse _ variables = Inr variables"

record analysis =
  imports' :: "pystr list"
  function_calls :: "pystr list"
  attributes :: "pystr list"
  classes :: "(pystr \<times> pystr list) list"
  variables :: "(pystr \<times> pystr) list"

text \<open>The four loops of the tool, in the order of the source, and the dictionary it returns.\<close>

definition extract_facts :: "(ast \<Rightarrow> exn + pystr) \<Rightarrow> ast \<Rightarrow> exn + analysis" where
  "extract_facts unparse tree =
     (case for_each (import_step unparse) (walk tree) [] of
        Inl e \<Rightarrow> Inl e
      | Inr imports \<Rightarrow>
     (case for_each (call_step unparse) (walk tree) ([], []) of
        Inl e \<Rightarrow> Inl e
      | Inr call_lists \<Rightarrow>
     (let (function_calls, attributes) = call_lists;
          classes = fold class_step (walk tree) []
      in case for_each (assign_step unparse) (walk tree) [] of
        Inl e \<Rightarrow> Inl e
      | Inr assigned \<Rightarrow>
          Inr \<lparr>imports' = imports, function_calls = function_calls, attributes = attributes,
               classes = classes, variables = assigned\<rparr>)))"

definition CodeAnalysisTool_run ::
  "(pystr \<Rightarrow> exn + ast) \<Rightarrow> (ast \<Rightarrow> exn + pystr) \<Rightarrow> pystr \<Rightarrow> exn + analysis tool_result" where
  "CodeAnalysisTool_run parse unparse code =
     try_except (case parse code of Inl e \<Rightarrow> Inl e | Inr tree \<Rightarrow> extract_facts unparse tree)"






section \<open>\<^verbatim>\<open>DependencyAnalyzer._run\<close>\<close>

text \<open>
  The environment is a parameter: \<open>pip_list\<close> is what
  \<^verbatim>\<open>subprocess.run(["pip", "list", "--format=json"], capture_output=True, text=True)\<close>
  does (it raises when the program cannot be started, and returns the completed process
  whatever its exit status, since \<^verbatim>\<open>check\<close> is not set), and \<open>path_exists p f\<close> is what
  \<^verbatim>\<open>(Path(p) / f).exists()\<close> does.
\<close>

record CompletedProcess =
  returncode :: int
  stdout :: pystr
  stderr :: pystr

record dependencies =
  installed_packages :: pystr
  dependency_files :: "pystr list"

definition common_dep_files :: "pystr list" where
  "common_dep_files =
     [py ''requirements.txt'', py ''pyproject.toml'', py ''setup.py'', py ''Pipfile'',
      py ''poetry.lock'']"

fun check_dep_files :: "(pystr \<Rightarrow> exn + bool) \<Rightarrow> pystr list \<Rightarrow> pystr list \<Rightarrow> exn + pystr list" where
  "check_dep_files file_exists [] dep_files = Inr dep_files"
| "check_dep_files file_exists (file # files) dep_files =
     (case file_exists file of
        Inl e \<Rightarrow> Inl e
      | Inr found \<Rightarrow>
          check_dep_files file_exists files (if found then dep_files @ [file] else dep_files))"

definition DependencyAnalyzer_run ::
  "exn + CompletedProcess \<Rightarrow> (pystr \<Rightarrow> pystr \<Rightarrow> exn + bool) \<Rightarrow> pystr
     \<Rightarrow> exn + dependencies tool_result" where
  "DependencyAnalyzer_run pip_list path_exists project_path =
     try_except
       (case pip_list of
          Inl e \<Rightarrow> Inl e
        | Inr result \<Rightarrow>
            (case check_dep_files (path_exists project_path) common_dep_files [] of
               Inl e \<Rightarrow> Inl e
             | Inr dep_files \<Rightarrow>
                 Inr \<lparr>installed_packages = stdout result, dependency_files = dep_files\<rparr>))"

section \<open>\<^verbatim>\<open>SolutionValidator._run\<close>\<close>

definition check_pep8 :: "pystr \<Rightarrow> bool" where
  "check_pep8 code =
     (let checks =
        [count_list code 9 = 0,
         \<not> list_ex (\<lambda>line. endswith (rstrip line) (py '' '')) (splitlines code),
         list_all (\<lambda>line. length line \<le> 79) (splitlines code)]
      in list_all (\<lambda>c. c) checks)"

text \<open>
  The code points 34 and 39 are the double and the single quote: the two docstring
  delimiters are \<open>[34, 34, 34]\<close> and \<open>[39, 39, 39]\<close>.
\<close>

record quality_checks =
  has_docstring :: bool
  has_type_hints :: bool
  has_error_handling :: bool
  follows_pep8 :: bool

record anti_patterns =
  bare_except :: bool
  global_variables :: bool
  mutable_defaults :: bool

definition check_quality :: "pystr \<Rightarrow> quality_checks" where
  "check_quality code =
     \<lparr>has_docstring = (contains [34, 34, 34] code \<or> contains [39, 39, 39] code),
      has_type_hints = re_search type_hint_pattern code,
      has_error_handling = (contains (py ''try:'') code \<and> contains (py ''except'') code),
      follows_pep8 = check_pep8 code\<rparr>"

definition check_anti_patterns :: "pystr \<Rightarrow> anti_patterns" where
  "check_anti_patterns code =
     \<lparr>bare_except = contains (py ''except:'') code,
      global_variables = re_search global_variable_pattern code,
      mutable_defaults = re_search mutable_default_pattern code\<rparr>"

definition missing_self :: "pystr \<Rightarrow> pystr" where
  "missing_self name = py ''Method '' @ [39] @ name @ [39] @ py '' missing '' @ [39]
     @ py ''self'' @ [39] @ py '' parameter''"

fun method_step :: "node \<Rightarrow> pystr list \<Rightarrow> pystr list" where
  "method_step (AstNode (FunctionDef name as body decorator_list returns)) class_issues =
     (let argnames = map arg (args as)
      in if length argnames > 0 \<and> argnames ! 0 \<noteq> py ''self''
         then class_issues @ [missing_self name] else class_issues)"
| "method_step _ class_issues = class_issues"

fun class_issue_step :: "node \<Rightarrow> pystr list \<Rightarrow> pystr list" where
  "class_issue_step (AstNode (ClassDef name bases kwds body decorator_list)) class_issues =
     (let methods = filter is_FunctionDef (walk (ClassDef name bases kwds body decorator_list))
      in fold method_step methods class_issues)"
| "class_issue_step _ class_issues = class_issues"

record validation =
  quality_checks :: quality_checks
  anti_patterns :: anti_patterns
  class_issues :: "pystr list"

definition check_classes :: "ast \<Rightarrow> pystr list" where
  "check_classes tree = fold class_issue_step (walk tree) []"

definition SolutionValidator_run ::
  "(pystr \<Rightarrow> exn + ast) \<Rightarrow> pystr \<Rightarrow> exn + validation tool_result" where
  "SolutionValidator_run parse code =
     try_except
       (let quality = check_quality code;
            anti = check_anti_patterns code
        in case parse code of
             Inl e \<Rightarrow> Inl e
           | Inr tree \<Rightarrow>
               Inr \<lparr>quality_checks = quality, anti_patterns = anti,
                    class_issues = check_classes tree\<rparr>)"

section \<open>What the traversal and the patterns mean\<close>



text \<open>
  The words a pattern matches: \<open>lang r b w\<close> holds when \<open>r\<close> matches exactly the word
  \<open>w\<close> from a position that is at the beginning of a line iff \<open>b\<close>; \<open>bol_after b w\<close>
  tells whether the position after \<open>w\<close> is at the beginning of a line.
\<close>

fun bol_after :: "bool \<Rightarrow> pystr \<Rightarrow> bool" where
  "bol_after b [] = b"
| "bol_after b (c # w) = bol_after (c = 10) w"

fun lang :: "regex \<Rightarrow> bool \<Rightarrow> pystr \<Rightarrow> bool" where
  "lang (Chars p) b w = (\<exists>c. w = [c] \<and> p c)"
| "lang (Star p) b w = list_all p w"
| "lang (Plus p) b w = (w \<noteq> [] \<and> list_all p w)"
| "lang Bol b w = (b \<and> w = [])"
| "lang (Seq r1 r2) b w = (\<exists>u v. w = u @ v \<and> lang r1 b u \<and> lang r2 (bol_after b u) v)"
| "lang (Alt r1 r2) b w = (lang r1 b w \<or> lang r2 b w)"


section \<open>Example inputs\<close>

text \<open>
  Nodes that are exception handling: a \<^verbatim>\<open>try\<close> statement or one of its handlers.
\<close>

fun is_handler :: "node \<Rightarrow> bool" where
  "is_handler (AstNode (Try body handlers orelse finalbody)) = True"
| "is_handler (AstNode (ExceptHandler typ name body)) = True"
| "is_handler _ = False"

definition has_handler :: "ast \<Rightarrow> bool" where
  "has_handler tree = list_ex is_handler (walk tree)"

text \<open>
  The source text \<^verbatim>\<open>x = "except:"\<close> (code point 34 is the double quote) and the tree
  \<^verbatim>\<open>ast.parse\<close> returns for it.
\<close>

definition assign_except_text :: pystr where
  "assign_except_text = py ''x = '' @ [34] @ py ''except:'' @ [34]"

definition assign_except_tree :: ast where
  "assign_except_tree = Module [Assign [Name (py ''x'')] (Constant (ConstStr (py ''except:'')) None)]"

text \<open>
  Environments of the dependency scan: a package manager that exits with status 1, one
  that exits with status 0, a project directory that holds \<^verbatim>\<open>setup.py\<close> only, and a
  path under which nothing exists.
\<close>

definition pip_failed :: CompletedProcess where
  "pip_failed = \<lparr>returncode = 1, stdout = [], stderr = py ''ERROR''\<rparr>"

definition pip_ok :: CompletedProcess where
  "pip_ok = \<lparr>returncode = 0, stdout = py ''[]'', stderr = []\<rparr>"

definition only_setup_py :: "pystr \<Rightarrow> pystr \<Rightarrow> exn + bool" where
  "only_setup_py project_path file = Inr (file = py ''setup.py'')"

definition nothing_exists :: "pystr \<Rightarrow> pystr \<Rightarrow> exn + bool" where
  "nothing_exists project_path file = Inr False"

text \<open>
  Trees that \<^verbatim>\<open>ast.parse\<close> returns: for \<^verbatim>\<open>a = b = 1\<close>; for a class whose method
  \<^verbatim>\<open>m(self)\<close> defines a local function \<^verbatim>\<open>helper\<close> and returns it; for a class whose
  method is \<^verbatim>\<open>def m(self, /, x): pass\<close>; and for a class whose method is
  \<^verbatim>\<open>def get(): return 1\<close>. (Code point 10 is the newline; \<^verbatim>\<open>pass\<close> and
  \<^verbatim>\<open>return\<close> are nodes of other classes.)
\<close>

definition no_arguments :: arguments where
  "no_arguments = Arguments [] [] None [] [] None []"


definition nested_helper_text :: pystr where
  "nested_helper_text = py ''class C:'' @ [10] @ py ''    def m(self):'' @ [10]
     @ py ''        def helper():'' @ [10] @ py ''            pass'' @ [10]
     @ py ''        return helper''"

definition nested_helper_tree :: ast where
  "nested_helper_tree =
     Module [ClassDef (py ''C'') [] []
       [FunctionDef (py ''m'') (Arguments [] [Arg (py ''self'') None] None [] [] None [])
          [FunctionDef (py ''helper'') no_arguments [Other (py ''Pass'') []] [] None,
           Other (py ''Return'') [Name (py ''helper'')]]
          [] None]
       []]"

definition posonly_self_text :: pystr where
  "posonly_self_text = py ''class C:'' @ [10] @ py ''    def m(self, /, x):'' @ [10]
     @ py ''        pass''"

definition posonly_self_tree :: ast where
  "posonly_self_tree =
     Module [ClassDef (py ''C'') [] []
       [FunctionDef (py ''m'')
          (Arguments [Arg (py ''self'') None] [Arg (py ''x'') None] None [] [] None [])
          [Other (py ''Pass'') []] [] None]
       []]"

definition get_without_self_tree :: ast where
  "get_without_self_tree =
     Module [ClassDef (py ''C'') [] []
       [FunctionDef (py ''get'') no_arguments
          [Other (py ''Return'') [Constant (ConstInt 1) None]] [] None]
       []]"






section \<open>Properties\<close>

subsection \<open>The traversal visits the descendants\<close>






subsection \<open>Substring tests\<close>

lemma startswith_iff: "startswith s p \<longleftrightarrow> (\<exists>post. s = p @ post)"
  by (induction s p rule: startswith.induct) auto

lemma contains_iff: "contains sub s \<longleftrightarrow> (\<exists>pre post. s = pre @ sub @ post)"
proof (induction s)
  case Nil
  then show ?case by auto
next
  case (Cons c s)
  show ?case
  proof
    assume "contains sub (c # s)"
    then consider "startswith (c # s) sub" | "contains sub s" by auto
    then show "\<exists>pre post. c # s = pre @ sub @ post"
    proof cases
      case 1
      then obtain post where "c # s = [] @ sub @ post" by (auto simp: startswith_iff)
      then show ?thesis by blast
    next
      case 2
      then obtain pre post where "s = pre @ sub @ post" using Cons.IH by blast
      then have "c # s = (c # pre) @ sub @ post" by simp
      then show ?thesis by blast
    qed
  next
    assume "\<exists>pre post. c # s = pre @ sub @ post"
    then obtain pre post where *: "c # s = pre @ sub @ post" by blast
    show "contains sub (c # s)"
    proof (cases pre)
      case Nil
      with * have "startswith (c # s) sub" by (auto simp: startswith_iff)
      then show ?thesis by simp
    next
      case (Cons d pre')
      with * have "s = pre' @ sub @ post" by simp
      then have "contains sub s" using Cons.IH by blast
      then show ?thesis by simp
    qed
  qed
qed


subsection \<open>The matcher finds the words of the pattern\<close>

lemma bol_after_append: "bol_after b (u @ v) = bol_after (bol_after b u) v"
  by (induction u arbitrary: b) auto

lemma bol_after_last: "bol_after b w = (if w = [] then b else last w = 10)"
  by (induction w arbitrary: b) auto

lemma repeat_self: "(b, s) \<in> set (repeat p (b, s))"
  by (cases s) auto

lemma bol_after_True: "bol_after True pre = (pre = [] \<or> last pre = 10)"
  by (simp add: bol_after_last)

lemma set_repeat:
  "set (repeat p (b, s)) = {(bol_after b w, s') | w s'. s = w @ s' \<and> list_all p w}"
proof (induction s arbitrary: b)
  case Nil
  then show ?case by auto
next
  case (Cons c s)
  show ?case
  proof (cases "p c")
    case True
    show ?thesis
    proof (intro set_eqI iffI)
      fix x assume "x \<in> set (repeat p (b, c # s))"
      with True have "x = (b, c # s) \<or> x \<in> set (repeat p (c = 10, s))" by auto
      then show "x \<in> {(bol_after b w, s') | w s'. c # s = w @ s' \<and> list_all p w}"
      proof
        assume "x = (b, c # s)"
        then have "x = (bol_after b [], c # s) \<and> c # s = [] @ c # s \<and> list_all p []" by simp
        then show ?thesis by blast
      next
        assume "x \<in> set (repeat p (c = 10, s))"
        then obtain w s' where "x = (bol_after (c = 10) w, s')" "s = w @ s'" "list_all p w"
          using Cons.IH by auto
        with True have "x = (bol_after b (c # w), s') \<and> c # s = (c # w) @ s' \<and> list_all p (c # w)"
          by simp
        then show ?thesis by blast
      qed
    next
      fix x assume "x \<in> {(bol_after b w, s') | w s'. c # s = w @ s' \<and> list_all p w}"
      then obtain w s' where *: "x = (bol_after b w, s')" "c # s = w @ s'" "list_all p w" by auto
      show "x \<in> set (repeat p (b, c # s))"
      proof (cases w)
        case Nil
        with * show ?thesis using repeat_self [of b "c # s" p] by simp
      next
        case (Cons d w')
        with * have "d = c" "s = w' @ s'" "list_all p w'" by auto
        then have "(bol_after (c = 10) w', s') \<in> set (repeat p (c = 10, s))"
          using Cons.IH by auto
        with * Cons True \<open>d = c\<close> show ?thesis by simp
      qed
    qed
  next
    case False
    show ?thesis
    proof (intro set_eqI iffI)
      fix x assume "x \<in> set (repeat p (b, c # s))"
      with False have "x = (bol_after b [], c # s) \<and> c # s = [] @ c # s \<and> list_all p []" by simp
      then show "x \<in> {(bol_after b w, s') | w s'. c # s = w @ s' \<and> list_all p w}" by blast
    next
      fix x assume "x \<in> {(bol_after b w, s') | w s'. c # s = w @ s' \<and> list_all p w}"
      then obtain w s' where *: "x = (bol_after b w, s')" "c # s = w @ s'" "list_all p w" by auto
      with False have "w = []" by (cases w) auto
      with * show "x \<in> set (repeat p (b, c # s))" using repeat_self [of b "c # s" p] by simp
    qed
  qed
qed

lemma set_rmatch:
  "set (rmatch r (b, s)) = {(bol_after b w, s') | w s'. s = w @ s' \<and> lang r b w}"
proof (induction r arbitrary: b s)
  case (Chars p)
  show ?case by (cases s) (auto simp: Cons_eq_append_conv)
next
  case (Star p)
  show ?case by (simp add: set_repeat)
next
  case (Plus p)
  show ?case
  proof (cases s)
    case Nil
    then show ?thesis by auto
  next
    case (Cons c s0)
    show ?thesis
    proof (cases "p c")
      case True
      have "set (rmatch (Plus p) (b, s)) = {(bol_after (c = 10) w, s') | w s'. s0 = w @ s' \<and> list_all p w}"
        using Cons True by (simp add: set_repeat)
      also have "\<dots> = {(bol_after b w, s') | w s'. s = w @ s' \<and> lang (Plus p) b w}"
      proof (intro set_eqI iffI)
        fix x assume "x \<in> {(bol_after (c = 10) w, s') | w s'. s0 = w @ s' \<and> list_all p w}"
        then obtain w s' where "x = (bol_after (c = 10) w, s')" "s0 = w @ s'" "list_all p w" by auto
        with Cons True have "x = (bol_after b (c # w), s') \<and> s = (c # w) @ s' \<and> lang (Plus p) b (c # w)"
          by simp
        then show "x \<in> {(bol_after b w, s') | w s'. s = w @ s' \<and> lang (Plus p) b w}" by blast
      next
        fix x assume "x \<in> {(bol_after b w, s') | w s'. s = w @ s' \<and> lang (Plus p) b w}"
        then obtain w s' where *: "x = (bol_after b w, s')" "s = w @ s'" "w \<noteq> []" "list_all p w" by auto
        then obtain w' where "w = c # w'" using Cons by (cases w) auto
        with * Cons have "x = (bol_after (c = 10) w', s') \<and> s0 = w' @ s' \<and> list_all p w'" by simp
        then show "x \<in> {(bol_after (c = 10) w, s') | w s'. s0 = w @ s' \<and> list_all p w}" by blast
      qed
      finally show ?thesis .
    next
      case False
      with Cons show ?thesis by (auto simp: Cons_eq_append_conv)
    qed
  qed
next
  case Bol
  show ?case by auto
next
  case (Seq r1 r2)
  show ?case
  proof (intro set_eqI iffI)
    fix x assume "x \<in> set (rmatch (Seq r1 r2) (b, s))"
    then obtain st where st: "st \<in> set (rmatch r1 (b, s))" and x: "x \<in> set (rmatch r2 st)" by auto
    from st obtain u s1 where u: "st = (bol_after b u, s1)" "s = u @ s1" "lang r1 b u"
      using Seq.IH(1) [of b s] by auto
    from x u obtain v s' where v: "x = (bol_after (bol_after b u) v, s')" "s1 = v @ s'"
        "lang r2 (bol_after b u) v"
      using Seq.IH(2) [of "bol_after b u" s1] by auto
    from u v have "x = (bol_after b (u @ v), s') \<and> s = (u @ v) @ s' \<and> lang (Seq r1 r2) b (u @ v)"
      by (auto simp: bol_after_append)
    then show "x \<in> {(bol_after b w, s') | w s'. s = w @ s' \<and> lang (Seq r1 r2) b w}" by blast
  next
    fix x assume "x \<in> {(bol_after b w, s') | w s'. s = w @ s' \<and> lang (Seq r1 r2) b w}"
    then obtain u v s' where *: "x = (bol_after b (u @ v), s')" "s = (u @ v) @ s'" "lang r1 b u"
        "lang r2 (bol_after b u) v" by auto
    then have "(bol_after b u, v @ s') \<in> set (rmatch r1 (b, s))"
      using Seq.IH(1) [of b s] by auto
    moreover have "x \<in> set (rmatch r2 (bol_after b u, v @ s'))"
      using * Seq.IH(2) [of "bol_after b u" "v @ s'"] by (auto simp: bol_after_append)
    ultimately show "x \<in> set (rmatch (Seq r1 r2) (b, s))" by auto
  qed
next
  case (Alt r1 r2)
  show ?case using Alt.IH(1) [of b s] Alt.IH(2) [of b s] by auto
qed

lemma rmatch_nonempty: "rmatch r (b, s) \<noteq> [] \<longleftrightarrow> (\<exists>w s'. s = w @ s' \<and> lang r b w)"
proof -
  have "rmatch r (b, s) \<noteq> [] \<longleftrightarrow> set (rmatch r (b, s)) \<noteq> {}" by simp
  also have "\<dots> \<longleftrightarrow> (\<exists>w s'. s = w @ s' \<and> lang r b w)" unfolding set_rmatch by auto
  finally show ?thesis .
qed

lemma search_from_iff:
  "search_from r (b, s) \<longleftrightarrow> (\<exists>pre w post. s = pre @ w @ post \<and> lang r (bol_after b pre) w)"
proof (induction s arbitrary: b)
  case Nil
  show ?case by (simp add: rmatch_nonempty)
next
  case (Cons c s)
  show ?case
  proof
    assume "search_from r (b, c # s)"
    then consider "rmatch r (b, c # s) \<noteq> []" | "search_from r (c = 10, s)" by auto
    then show "\<exists>pre w post. c # s = pre @ w @ post \<and> lang r (bol_after b pre) w"
    proof cases
      case 1
      then obtain w s' where "c # s = w @ s'" "lang r b w" by (auto simp: rmatch_nonempty)
      then have "c # s = [] @ w @ s' \<and> lang r (bol_after b []) w" by simp
      then show ?thesis by blast
    next
      case 2
      then obtain pre w post where "s = pre @ w @ post" "lang r (bol_after (c = 10) pre) w"
        using Cons.IH by blast
      then have "c # s = (c # pre) @ w @ post \<and> lang r (bol_after b (c # pre)) w" by simp
      then show ?thesis by blast
    qed
  next
    assume "\<exists>pre w post. c # s = pre @ w @ post \<and> lang r (bol_after b pre) w"
    then obtain pre w post where *: "c # s = pre @ w @ post" "lang r (bol_after b pre) w" by blast
    show "search_from r (b, c # s)"
    proof (cases pre)
      case Nil
      with * have "rmatch r (b, c # s) \<noteq> []" by (auto simp: rmatch_nonempty)
      then show ?thesis by simp
    next
      case (Cons d pre')
      with * have "s = pre' @ w @ post" "lang r (bol_after (c = 10) pre') w" by auto
      then have "search_from r (c = 10, s)" using Cons.IH by blast
      then show ?thesis by simp
    qed
  qed
qed

lemma re_search_iff:
  "re_search r s \<longleftrightarrow> (\<exists>pre w post. s = pre @ w @ post \<and> lang r (pre = [] \<or> last pre = 10) w)"
  unfolding re_search_def search_from_iff bol_after_True ..

lemma lit_single: "lit [c] = Chars (\<lambda>x. x = of_char c)"
  by (simp add: lit_def)

lemma lit_Cons: "lit (c # d # s) = Seq (Chars (\<lambda>x. x = of_char c)) (lit (d # s))"
  by (simp add: lit_def)

lemma lang_lit: "s \<noteq> [] \<Longrightarrow> lang (lit s) b w \<longleftrightarrow> w = py s"
proof (induction s arbitrary: b w)
  case Nil
  then show ?case by simp
next
  case (Cons c s)
  show ?case
  proof (cases s)
    case Nil
    then show ?thesis by (auto simp: lit_single py_def)
  next
    case (Cons d s')
    then have "lang (lit (c # s)) b w \<longleftrightarrow> (\<exists>v. w = of_char c # v \<and> lang (lit s) (of_char c = (10::nat)) v)"
      by (auto simp: lit_Cons)
    also have "\<dots> \<longleftrightarrow> (\<exists>v. w = of_char c # v \<and> v = py s)"
      using Cons.IH Cons by simp
    also have "\<dots> \<longleftrightarrow> w = py (c # s)" by (auto simp: py_def)
    finally show ?thesis .
  qed
qed

lemma lang_Seq_lit:
  "s \<noteq> [] \<Longrightarrow> lang (Seq (lit s) r) b w \<longleftrightarrow> (\<exists>v. w = py s @ v \<and> lang r (bol_after b (py s)) v)"
  by (auto simp: lang_lit)


lemma lang_Seq_Bol: "lang (Seq Bol r) b w \<longleftrightarrow> b \<and> lang r b w"
  by simp

lemma lang_global_variable_pattern:
  "lang global_variable_pattern b w \<longleftrightarrow>
     b \<and> (\<exists>name ws. w = name @ ws @ py ''='' \<and> name \<noteq> [] \<and> list_all upper_or_underscore name
            \<and> list_all is_space ws)"
proof -
  have "lang global_variable_pattern b w \<longleftrightarrow>
      b \<and> (\<exists>u v. w = u @ v \<and> u \<noteq> [] \<and> list_all upper_or_underscore u
             \<and> (\<exists>u' v'. v = u' @ v' \<and> list_all is_space u' \<and> v' = py ''=''))"
    unfolding global_variable_pattern_def lang_Seq_Bol
    by (simp only: lang.simps lang_lit [of "''=''", simplified] simp_thms conj_assoc)
  also have "\<dots> \<longleftrightarrow> b \<and> (\<exists>name ws. w = name @ ws @ py ''='' \<and> name \<noteq> []
      \<and> list_all upper_or_underscore name \<and> list_all is_space ws)"
    by blast
  finally show ?thesis .
qed

lemma lang_mutable_default_pattern:
  "lang mutable_default_pattern b w \<longleftrightarrow>
     (\<exists>u v m t. w = py ''def'' @ u @ py ''('' @ v @ m @ t @ py '')''
        \<and> (m = py ''=[]'' \<or> m = py ''={}'')
        \<and> list_all dot u \<and> list_all dot v \<and> list_all dot t)"
proof -
  have "lang mutable_default_pattern b w \<longleftrightarrow>
      (\<exists>u1 a1. w = u1 @ a1 \<and> u1 = py ''def'' \<and>
        (\<exists>u a2. a1 = u @ a2 \<and> list_all dot u \<and>
          (\<exists>u3 a3. a2 = u3 @ a3 \<and> u3 = py ''('' \<and>
            (\<exists>x a4. a3 = x @ a4 \<and>
               ((\<exists>v r. x = v @ r \<and> list_all dot v \<and> (\<exists>m t. r = m @ t \<and> m = py ''=[]'' \<and> list_all dot t))
                \<or> (\<exists>v r. x = v @ r \<and> list_all dot v \<and> (\<exists>m t. r = m @ t \<and> m = py ''={}'' \<and> list_all dot t)))
               \<and> a4 = py '')''))))"
    unfolding mutable_default_pattern_def
    by (simp only: lang.simps lang_lit [of "''def''", simplified] lang_lit [of "''(''", simplified]
        lang_lit [of "'')''", simplified] lang_lit [of "''=[]''", simplified]
        lang_lit [of "''={}''", simplified] simp_thms conj_assoc)
  also have "\<dots> \<longleftrightarrow> (\<exists>u v m t. w = py ''def'' @ u @ py ''('' @ v @ m @ t @ py '')''
        \<and> (m = py ''=[]'' \<or> m = py ''={}'')
        \<and> list_all dot u \<and> list_all dot v \<and> list_all dot t)"
    (is "?L \<longleftrightarrow> ?R")
  proof
    assume ?L
    then obtain u x where w: "w = py ''def'' @ u @ py ''('' @ x @ py '')''" and u: "list_all dot u"
      and x: "(\<exists>v t. x = v @ py ''=[]'' @ t \<and> list_all dot v \<and> list_all dot t)
            \<or> (\<exists>v t. x = v @ py ''={}'' @ t \<and> list_all dot v \<and> list_all dot t)"
      by blast
    from x obtain v m t where "x = v @ m @ t" "m = py ''=[]'' \<or> m = py ''={}''"
        "list_all dot v" "list_all dot t"
      by blast
    with w u show ?R by auto
  next
    assume ?R
    then obtain u v m t where *: "w = py ''def'' @ u @ py ''('' @ v @ m @ t @ py '')''"
        "m = py ''=[]'' \<or> m = py ''={}''" "list_all dot u" "list_all dot v" "list_all dot t"
      by blast
    from *(2) show ?L
    proof
      assume "m = py ''=[]''"
      with * show ?L by (metis append.assoc)
    next
      assume "m = py ''={}''"
      with * show ?L by (metis append.assoc)
    qed
  qed
  finally show ?thesis .
qed

subsection \<open>Parse failures of the code analysis\<close>

text \<open>
  Claim C9. When the text is not valid Python source, so that \<^verbatim>\<open>ast.parse\<close> raises a
  \<^verbatim>\<open>SyntaxError\<close>, the code analysis does not let the exception out: it returns a result
  with \<^verbatim>\<open>success\<close> false whose \<^verbatim>\<open>error\<close> is the text of the exception.
\<close>

theorem analyzeCode_reports_SyntaxError:
  assumes "parse code = Inl (Exn SyntaxError msg)"
  shows "\<exists>r. CodeAnalysisTool_run parse unparse code = Inr r \<and> success r = False \<and> error r = msg"
  using assms by (simp add: CodeAnalysisTool_run_def)

theorem analyzeCode_reports_SyntaxError_witness:
  "\<exists>r. CodeAnalysisTool_run (\<lambda>_. Inl (Exn SyntaxError (py ''invalid syntax (<unknown>, line 1)'')))
         (\<lambda>_. Inr []) (py ''def f(:'') = Inr r
       \<and> success r = False \<and> error r = py ''invalid syntax (<unknown>, line 1)''"
  using analyzeCode_reports_SyntaxError
    [of "\<lambda>_. Inl (Exn SyntaxError (py ''invalid syntax (<unknown>, line 1)''))" "py ''def f(:''"
        "py ''invalid syntax (<unknown>, line 1)''" "\<lambda>_. Inr []"]
  by simp

lemma list_all_dot: "list_all dot u \<longleftrightarrow> 10 \<notin> set u"
  by (induction u) (auto simp: dot_def)

subsection \<open>The global-variables check\<close>

text \<open>
  Claim C1, as amended. The global-variables check is a line pattern over the raw text: it
  is true exactly when some line of the text begins with a non-empty run of upper-case ASCII
  letters and underscores, followed by optional white space and an equals sign. So a name in
  upper case with underscores at the start of a line is what the check reports, and an
  assignment to any other name is not reported.
\<close>

theorem global_variables_iff:
  "global_variables (check_anti_patterns code) \<longleftrightarrow>
     (\<exists>pre name ws post. code = pre @ name @ ws @ py ''='' @ post \<and> (pre = [] \<or> last pre = 10)
        \<and> name \<noteq> [] \<and> list_all upper_or_underscore name \<and> list_all is_space ws)"
proof -
  have "global_variables (check_anti_patterns code) \<longleftrightarrow>
      (\<exists>pre w post. code = pre @ w @ post
         \<and> lang global_variable_pattern (pre = [] \<or> last pre = 10) w)"
    by (simp add: check_anti_patterns_def re_search_iff)
  also have "\<dots> \<longleftrightarrow> (\<exists>pre name ws post. code = pre @ name @ ws @ py ''='' @ post
        \<and> (pre = [] \<or> last pre = 10)
        \<and> name \<noteq> [] \<and> list_all upper_or_underscore name \<and> list_all is_space ws)"
    (is "?L \<longleftrightarrow> ?R")
  proof
    assume ?L
    then obtain pre w post where "code = pre @ w @ post"
        "lang global_variable_pattern (pre = [] \<or> last pre = 10) w" by blast
    then obtain name ws where "code = pre @ (name @ ws @ py ''='') @ post"
        "pre = [] \<or> last pre = 10" "name \<noteq> []" "list_all upper_or_underscore name"
        "list_all is_space ws"
      unfolding lang_global_variable_pattern by blast
    then have "code = pre @ name @ ws @ py ''='' @ post \<and> (pre = [] \<or> last pre = 10)
        \<and> name \<noteq> [] \<and> list_all upper_or_underscore name \<and> list_all is_space ws"
      by simp
    then show ?R by blast
  next
    assume ?R
    then obtain pre name ws post where *: "code = pre @ name @ ws @ py ''='' @ post"
        "pre = [] \<or> last pre = 10" "name \<noteq> []" "list_all upper_or_underscore name"
        "list_all is_space ws" by blast
    then have "lang global_variable_pattern (pre = [] \<or> last pre = 10) (name @ ws @ py ''='')"
      unfolding lang_global_variable_pattern by blast
    moreover from * have "code = pre @ (name @ ws @ py ''='') @ post" by simp
    ultimately show ?L by blast
  qed
  finally show ?thesis .
qed

theorem global_variables_iff_witness:
  "py ''X_MAX=2'' = [] @ py ''X_MAX'' @ [] @ py ''='' @ py ''2''
   \<and> list_all upper_or_underscore (py ''X_MAX'')
   \<and> global_variables (check_anti_patterns (py ''X_MAX=2''))"
proof -
  have d: "py ''X_MAX=2'' = [] @ py ''X_MAX'' @ [] @ py ''='' @ py ''2''"
    by (simp add: py_def)
  have u: "list_all upper_or_underscore (py ''X_MAX'')"
    by (simp add: py_def upper_or_underscore_def)
  have n: "py ''X_MAX'' \<noteq> []" by (simp add: py_def)
  have "\<exists>pre name ws post. py ''X_MAX=2'' = pre @ name @ ws @ py ''='' @ post
      \<and> (pre = [] \<or> last pre = 10)
      \<and> name \<noteq> [] \<and> list_all upper_or_underscore name \<and> list_all is_space ws"
    using d u n by (intro exI [of _ "[]"] exI [of _ "py ''X_MAX''"] exI [of _ "py ''2''"]) simp
  then have "global_variables (check_anti_patterns (py ''X_MAX=2''))"
    using global_variables_iff [of "py ''X_MAX=2''"] by blast
  with d u show ?thesis by blast
qed

text \<open>
  The check reports the upper-case binding \<^verbatim>\<open>MAX_SIZE = 1\<close> and does not report the
  module-level assignment \<^verbatim>\<open>counter = 1\<close>.
\<close>

theorem global_variables_counterexample:
  "global_variables (check_anti_patterns (py ''MAX_SIZE = 1''))
   \<and> \<not> global_variables (check_anti_patterns (py ''counter = 1''))"
  by (simp add: check_anti_patterns_def re_search_def global_variable_pattern_def lit_def py_def
      upper_or_underscore_def is_space_def)

subsection \<open>The mutable-defaults check\<close>

text \<open>
  Claim C7, as amended. The mutable-defaults check is one truth value for the whole text, not
  a finding per parameter: it is true exactly when the text has, within one line, \<^verbatim>\<open>def\<close>,
  later \<^verbatim>\<open>(\<close>, later \<^verbatim>\<open>=[]\<close> or \<^verbatim>\<open>={}\<close> written without a space, and later
  \<^verbatim>\<open>)\<close>. (Code point 10 is the newline.)
\<close>

theorem mutable_defaults_iff:
  "mutable_defaults (check_anti_patterns code) \<longleftrightarrow>
     (\<exists>pre u v m t post. code = pre @ py ''def'' @ u @ py ''('' @ v @ m @ t @ py '')'' @ post
        \<and> (m = py ''=[]'' \<or> m = py ''={}'')
        \<and> 10 \<notin> set u \<and> 10 \<notin> set v \<and> 10 \<notin> set t)"
proof -
  have "mutable_defaults (check_anti_patterns code) \<longleftrightarrow>
      (\<exists>pre w post. code = pre @ w @ post
         \<and> lang mutable_default_pattern (pre = [] \<or> last pre = 10) w)"
    by (simp add: check_anti_patterns_def re_search_iff)
  also have "\<dots> \<longleftrightarrow> (\<exists>pre u v m t post.
        code = pre @ py ''def'' @ u @ py ''('' @ v @ m @ t @ py '')'' @ post
        \<and> (m = py ''=[]'' \<or> m = py ''={}'')
        \<and> 10 \<notin> set u \<and> 10 \<notin> set v \<and> 10 \<notin> set t)"
    (is "?L \<longleftrightarrow> ?R")
  proof
    assume ?L
    then obtain pre w post where "code = pre @ w @ post"
        "lang mutable_default_pattern (pre = [] \<or> last pre = 10) w" by blast
    then obtain u v m t where **:
        "code = pre @ (py ''def'' @ u @ py ''('' @ v @ m @ t @ py '')'') @ post"
        "m = py ''=[]'' \<or> m = py ''={}''" "10 \<notin> set u" "10 \<notin> set v" "10 \<notin> set t"
      unfolding lang_mutable_default_pattern list_all_dot by blast
    from **(1) have "code = pre @ py ''def'' @ u @ py ''('' @ v @ m @ t @ py '')'' @ post"
      by simp
    with **(2-5) show ?R by blast
  next
    assume ?R
    then obtain pre u v m t post where *:
        "code = pre @ py ''def'' @ u @ py ''('' @ v @ m @ t @ py '')'' @ post"
        "m = py ''=[]'' \<or> m = py ''={}''" "10 \<notin> set u" "10 \<notin> set v" "10 \<notin> set t" by blast
    then have "lang mutable_default_pattern (pre = [] \<or> last pre = 10)
        (py ''def'' @ u @ py ''('' @ v @ m @ t @ py '')'')"
      unfolding lang_mutable_default_pattern list_all_dot by blast
    moreover from * have "code = pre @ (py ''def'' @ u @ py ''('' @ v @ m @ t @ py '')'') @ post"
      by simp
    ultimately show ?L by blast
  qed
  finally show ?thesis .
qed

theorem mutable_defaults_iff_witness:
  "py ''def f(data=[]): pass''
      = [] @ py ''def'' @ py '' f'' @ py ''('' @ py ''data'' @ py ''=[]'' @ [] @ py '')'' @ py '': pass''
   \<and> 10 \<notin> set (py '' f'') \<and> 10 \<notin> set (py ''data'')
   \<and> mutable_defaults (check_anti_patterns (py ''def f(data=[]): pass''))"
proof -
  have d: "py ''def f(data=[]): pass''
      = [] @ py ''def'' @ py '' f'' @ py ''('' @ py ''data'' @ py ''=[]'' @ [] @ py '')'' @ py '': pass''"
    by (simp add: py_def)
  have n: "10 \<notin> set (py '' f'')" "10 \<notin> set (py ''data'')"
    by (simp_all add: py_def)
  have "\<exists>pre u v m t post.
      py ''def f(data=[]): pass'' = pre @ py ''def'' @ u @ py ''('' @ v @ m @ t @ py '')'' @ post
      \<and> (m = py ''=[]'' \<or> m = py ''={}'')
      \<and> 10 \<notin> set u \<and> 10 \<notin> set v \<and> 10 \<notin> set t"
    using d n
    by (intro exI [of _ "[]"] exI [of _ "py '' f''"] exI [of _ "py ''data''"]
        exI [of _ "py ''=[]''"] exI [of _ "py '': pass''"]) simp
  then have "mutable_defaults (check_anti_patterns (py ''def f(data=[]): pass''))"
    using mutable_defaults_iff [of "py ''def f(data=[]): pass''"] by blast
  with d n show ?thesis by blast
qed

text \<open>
  Two offending parameters give the same answer as one, and the single offending parameter
  of \<^verbatim>\<open>def f(data = []): pass\<close> is not reported at all.
\<close>

theorem mutable_defaults_counterexample:
  "mutable_defaults (check_anti_patterns (py ''def f(a=[], b=[]): pass''))
     = mutable_defaults (check_anti_patterns (py ''def f(data=[]): pass''))
   \<and> \<not> mutable_defaults (check_anti_patterns (py ''def f(data = []): pass''))"
  by (simp add: check_anti_patterns_def re_search_def mutable_default_pattern_def lit_def py_def
      dot_def)

subsection \<open>What the two source tools return\<close>

lemma SolutionValidator_run_parsed:
  "parse code = Inr tree \<Longrightarrow>
   SolutionValidator_run parse code =
     Inr (Success \<lparr>quality_checks = check_quality code, anti_patterns = check_anti_patterns code,
                  class_issues = check_classes tree\<rparr>)"
  by (simp add: SolutionValidator_run_def)


lemma CodeAnalysisTool_run_parsed:
  "parse code = Inr tree \<Longrightarrow>
   CodeAnalysisTool_run parse unparse code = try_except (extract_facts unparse tree)"
  by (simp add: CodeAnalysisTool_run_def)


subsection \<open>The bare-except check\<close>

lemma bare_except_iff:
  "bare_except (check_anti_patterns code) \<longleftrightarrow> (\<exists>pre post. code = pre @ py ''except:'' @ post)"
  by (simp add: check_anti_patterns_def contains_iff)

lemma assign_except_text_flagged: "bare_except (check_anti_patterns assign_except_text)"
  unfolding bare_except_iff assign_except_text_def
  by (intro exI [of _ "py ''x = '' @ [34]"] exI [of _ "[34]"]) simp

lemma assign_except_tree_no_handler: "\<not> has_handler assign_except_tree"
  by (simp add: has_handler_def assign_except_tree_def walk_def)

text \<open>
  Claim C10. Whenever the text parses, the validator's bare-except flag is true exactly when
  the raw text contains the substring \<^verbatim>\<open>except:\<close>. So the text \<^verbatim>\<open>x = "except:"\<close>,
  whose tree has no \<^verbatim>\<open>try\<close> statement and no handler, is reported as having a bare
  except.
\<close>

theorem bare_except_is_substring_test:
  "(parse code = Inr tree \<longrightarrow>
      (\<exists>r. SolutionValidator_run parse code = Inr (Success r)
         \<and> (bare_except (anti_patterns r) \<longleftrightarrow> (\<exists>pre post. code = pre @ py ''except:'' @ post))))
   \<and> (parse assign_except_text = Inr assign_except_tree \<longrightarrow>
      (\<exists>r. SolutionValidator_run parse assign_except_text = Inr (Success r)
         \<and> bare_except (anti_patterns r)))
   \<and> \<not> has_handler assign_except_tree"
  using assign_except_text_flagged assign_except_tree_no_handler
  by (simp add: SolutionValidator_run_parsed bare_except_iff)

theorem bare_except_is_substring_test_witness:
  "(\<exists>r. SolutionValidator_run (\<lambda>_. Inr assign_except_tree) assign_except_text = Inr (Success r)
       \<and> bare_except (anti_patterns r))
   \<and> \<not> has_handler assign_except_tree"
  using bare_except_is_substring_test
    [of "\<lambda>_. Inr assign_except_tree" assign_except_text assign_except_tree]
  by simp

subsection \<open>The dependency scan\<close>

lemma check_dep_files_total:
  "\<forall>f \<in> set files. \<exists>found. file_exists f = Inr found \<Longrightarrow>
   check_dep_files file_exists files dep_files
     = Inr (dep_files @ filter (\<lambda>f. file_exists f = Inr True) files)"
proof (induction files arbitrary: dep_files)
  case Nil
  then show ?case by simp
next
  case (Cons f files)
  then obtain found where "file_exists f = Inr found" by auto
  with Cons show ?case by (cases found) auto
qed

lemma check_dep_files_raises:
  "check_dep_files file_exists files dep_files = Inr r \<Longrightarrow>
   \<forall>f \<in> set files. \<exists>found. file_exists f = Inr found"
proof (induction files arbitrary: dep_files)
  case Nil
  then show ?case by simp
next
  case (Cons f files)
  then show ?case by (cases "file_exists f") auto
qed

text \<open>
  Claim C2, as amended. When no existence check raises: if the package manager was started
  and exited, with whatever status, the scan succeeds with the manifest files found and the
  captured standard output as the package inventory, and nothing is marked as failed; if
  starting the package manager raised an exception, the whole scan is a failure that holds
  only the text of the exception.
\<close>

theorem scan_package_query_outcome:
  assumes "\<forall>f \<in> set common_dep_files. \<exists>found. path_exists project_path f = Inr found"
  shows "(pip_list = Inr result \<longrightarrow>
           DependencyAnalyzer_run pip_list path_exists project_path =
             Inr (Success \<lparr>installed_packages = stdout result,
                dependency_files =
                  filter (\<lambda>f. path_exists project_path f = Inr True) common_dep_files\<rparr>))
       \<and> (pip_list = Inl e \<and> is_Exception (exc_class e) \<longrightarrow>
           DependencyAnalyzer_run pip_list path_exists project_path = Inr (Failure (exc_str e)))"
  using check_dep_files_total [OF assms, of "[]"]
  by (simp add: DependencyAnalyzer_run_def)

theorem scan_package_query_outcome_witness:
  "DependencyAnalyzer_run (Inr pip_failed) only_setup_py (py ''/project'') =
     Inr (Success \<lparr>installed_packages = [], dependency_files = [py ''setup.py'']\<rparr>)
   \<and> DependencyAnalyzer_run (Inl (Exn FileNotFoundError (py ''pip''))) only_setup_py (py ''/project'')
       = Inr (Failure (py ''pip''))"
proof -
  have h: "\<forall>f \<in> set common_dep_files. \<exists>found. only_setup_py (py ''/project'') f = Inr found"
    by (simp add: only_setup_py_def)
  have f: "filter (\<lambda>f. only_setup_py (py ''/project'') f = Inr True) common_dep_files
      = [py ''setup.py'']"
    by (simp add: only_setup_py_def common_dep_files_def py_def)
  show ?thesis
    using h
      scan_package_query_outcome [where path_exists = only_setup_py
        and project_path = "py ''/project''" and pip_list = "Inr pip_failed"
        and result = pip_failed]
      scan_package_query_outcome [where path_exists = only_setup_py
        and project_path = "py ''/project''"
        and pip_list = "Inl (Exn FileNotFoundError (py ''pip''))"
        and e = "Exn FileNotFoundError (py ''pip'')"]
    by (simp add: f pip_failed_def)
qed

text \<open>
  With the package manager missing, the scan fails as a whole although every manifest file
  exists.
\<close>

theorem scan_unavailable_binary_counterexample:
  "DependencyAnalyzer_run (Inl (Exn FileNotFoundError (py ''No such file or directory: pip'')))
     (\<lambda>project_path file. Inr True) (py ''/project'')
   = Inr (Failure (py ''No such file or directory: pip''))"
  by (simp add: DependencyAnalyzer_run_def)

text \<open>
  Claim C3, as amended. The scan never tests whether the project path is a directory. It
  succeeds exactly when starting the package manager does not raise and none of the
  existence checks raises; for a path under which none of the manifest names exists, as for
  a path that does not exist, it succeeds with an empty list of manifest files.
\<close>

theorem scan_succeeds_iff:
  "((\<exists>r. DependencyAnalyzer_run pip_list path_exists project_path = Inr (Success r)) \<longleftrightarrow>
      (\<exists>result. pip_list = Inr result)
      \<and> (\<forall>f \<in> set common_dep_files. \<exists>found. path_exists project_path f = Inr found))
   \<and> (pip_list = Inr result
       \<and> (\<forall>f \<in> set common_dep_files. path_exists project_path f = Inr False) \<longrightarrow>
      DependencyAnalyzer_run pip_list path_exists project_path =
        Inr (Success \<lparr>installed_packages = stdout result, dependency_files = []\<rparr>))"
proof (intro conjI impI)
  show "(\<exists>r. DependencyAnalyzer_run pip_list path_exists project_path = Inr (Success r)) \<longleftrightarrow>
      (\<exists>result. pip_list = Inr result)
      \<and> (\<forall>f \<in> set common_dep_files. \<exists>found. path_exists project_path f = Inr found)"
  proof
    assume "\<exists>r. DependencyAnalyzer_run pip_list path_exists project_path = Inr (Success r)"
    then obtain r where r: "DependencyAnalyzer_run pip_list path_exists project_path = Inr (Success r)"
      by blast
    then obtain result where p: "pip_list = Inr result"
      by (cases pip_list) (auto simp: DependencyAnalyzer_run_def split: if_splits)
    with r obtain files where
        "check_dep_files (path_exists project_path) common_dep_files [] = Inr files"
      by (cases "check_dep_files (path_exists project_path) common_dep_files []")
        (auto simp: DependencyAnalyzer_run_def split: if_splits)
    then have "\<forall>f \<in> set common_dep_files. \<exists>found. path_exists project_path f = Inr found"
      by (rule check_dep_files_raises)
    with p show "(\<exists>result. pip_list = Inr result)
      \<and> (\<forall>f \<in> set common_dep_files. \<exists>found. path_exists project_path f = Inr found)" by blast
  next
    assume a: "(\<exists>result. pip_list = Inr result)
      \<and> (\<forall>f \<in> set common_dep_files. \<exists>found. path_exists project_path f = Inr found)"
    then obtain result where "pip_list = Inr result" by blast
    with a show "\<exists>r. DependencyAnalyzer_run pip_list path_exists project_path = Inr (Success r)"
      using check_dep_files_total [of common_dep_files "path_exists project_path" "[]"]
      by (simp add: DependencyAnalyzer_run_def)
  qed
next
  assume a: "pip_list = Inr result
       \<and> (\<forall>f \<in> set common_dep_files. path_exists project_path f = Inr False)"
  then have "\<forall>f \<in> set common_dep_files. \<exists>found. path_exists project_path f = Inr found"
    by blast
  then have "check_dep_files (path_exists project_path) common_dep_files []
      = Inr ([] @ filter (\<lambda>f. path_exists project_path f = Inr True) common_dep_files)"
    by (rule check_dep_files_total)
  moreover have "filter (\<lambda>f. path_exists project_path f = Inr True) common_dep_files = []"
    using a by (simp add: filter_empty_conv)
  ultimately show "DependencyAnalyzer_run pip_list path_exists project_path =
        Inr (Success \<lparr>installed_packages = stdout result, dependency_files = []\<rparr>)"
    using a by (simp add: DependencyAnalyzer_run_def)
qed

theorem scan_succeeds_iff_witness:
  "(\<exists>r. DependencyAnalyzer_run (Inr pip_ok) nothing_exists (py ''/tmp/missing'') = Inr (Success r))
   \<and> DependencyAnalyzer_run (Inr pip_ok) nothing_exists (py ''/tmp/missing'') =
        Inr (Success \<lparr>installed_packages = py ''[]'', dependency_files = []\<rparr>)"
  using scan_succeeds_iff [of "Inr pip_ok" nothing_exists "py ''/tmp/missing''" pip_ok]
  by (simp add: nothing_exists_def pip_ok_def)

text \<open>
  A path under which nothing exists makes the scan succeed with empty content.
\<close>

theorem scan_missing_directory_counterexample:
  "DependencyAnalyzer_run (Inr pip_ok) (\<lambda>project_path file. Inr False) (py ''/no/such/dir'')
   = Inr (Success \<lparr>installed_packages = py ''[]'', dependency_files = []\<rparr>)"
  by (simp add: DependencyAnalyzer_run_def common_dep_files_def pip_ok_def)

subsection \<open>Loops that can raise\<close>













lemma extract_facts_classes:
  "extract_facts unparse tree = Inr facts \<Longrightarrow> classes facts = fold class_step (walk tree) []"
  by (auto simp: extract_facts_def Let_def split: sum.splits prod.splits)



subsection \<open>Validation and analysis\<close>




subsection \<open>The variables of the code analysis\<close>









subsection \<open>The methods of a class\<close>

text \<open>
  Claim C4 says that the entry of a class lists the functions declared directly in its body
  and not the functions nested in them. The code collects every function definition below
  the class node: for the class whose method \<^verbatim>\<open>m\<close> defines a local function
  \<^verbatim>\<open>helper\<close>, the methods listed are \<^verbatim>\<open>m\<close> and \<^verbatim>\<open>helper\<close>.
\<close>

theorem nested_function_listed_as_method:
  "\<exists>facts. CodeAnalysisTool_run (\<lambda>_. Inr nested_helper_tree) (\<lambda>_. Inr []) nested_helper_text
       = Inr (Success facts)
     \<and> classes facts = [(py ''C'', [py ''m'', py ''helper''])]"
  by (simp add: CodeAnalysisTool_run_parsed extract_facts_def nested_helper_tree_def
      no_arguments_def walk_def method_names_def Let_def split_def)

text \<open>
  Claim C6 says that a method is reported exactly when it has a parameter and the name of its
  first parameter is not \<^verbatim>\<open>self\<close>. The code reads the first of the ordinary positional
  parameters only: the method \<^verbatim>\<open>def m(self, /, x)\<close>, whose first parameter is
  \<^verbatim>\<open>self\<close>, is reported as missing it. The method \<^verbatim>\<open>def get()\<close> with no parameter is
  not reported.
\<close>

theorem positional_only_self_is_flagged:
  "(\<exists>r. SolutionValidator_run (\<lambda>_. Inr posonly_self_tree) posonly_self_text = Inr (Success r)
       \<and> class_issues r = [missing_self (py ''m'')])
   \<and> check_classes get_without_self_tree = []"
  by (simp add: SolutionValidator_run_parsed check_classes_def posonly_self_tree_def
      get_without_self_tree_def no_arguments_def walk_def Let_def py_def)

end
